theory Spec2Isabelle
  imports Main "HOL-Library.Word"
begin

text \<open>
  A model of the bucket page (\<open>pages/Buckets\<close>) and of the application context
  (\<open>context/AppContext\<close>) of the DataHaven demo dapp, with the properties its
  specification claims: the phases of bucket creation, what a failure leaves behind, the
  refresh of the bucket listing, the one-time WASM bootstrap and the wallet invariant.
\<close>

section \<open>JavaScript values\<close>

text \<open>
  A JavaScript string is a sequence of UTF-16 code units. Literals of the source are
  written \<open>str ''...''\<close>.
\<close>

type_synonym jsstring = "16 word list"

definition str :: "string \<Rightarrow> jsstring" where
  "str s = map (\<lambda>c. of_nat (of_char c)) s"

text \<open>
  \<open>String.prototype.trim\<close> removes, from both ends, the code units of the ECMAScript
  productions WhiteSpace (TAB, VT, FF, SP, NBSP, ZWNBSP and the Unicode category Zs) and
  LineTerminator (LF, CR, LS, PS).
\<close>

definition isWhiteSpace :: "16 word \<Rightarrow> bool" where
  "isWhiteSpace c \<longleftrightarrow>
     c = 0x0009 \<or> c = 0x000A \<or> c = 0x000B \<or> c = 0x000C \<or> c = 0x000D \<or> c = 0x0020 \<or>
     c = 0x00A0 \<or> c = 0x1680 \<or> (0x2000 \<le> c \<and> c \<le> 0x200A) \<or> c = 0x2028 \<or> c = 0x2029 \<or>
     c = 0x202F \<or> c = 0x205F \<or> c = 0x3000 \<or> c = 0xFEFF"

definition trim :: "jsstring \<Rightarrow> jsstring" where
  "trim s = rev (dropWhile isWhiteSpace (rev (dropWhile isWhiteSpace s)))"

text \<open>
  What a \<open>catch (err)\<close> clause can receive: an instance of \<open>Error\<close> with its message, or
  any other thrown value. A promise or call either throws (\<open>Inl\<close>) or yields its value.
\<close>

datatype thrown = ErrorObject jsstring | NonError

type_synonym 'a outcome = "thrown + 'a"

text \<open>The recurring expression \<open>err instanceof Error ? err.message : fallback\<close>.\<close>

fun messageOr :: "thrown \<Rightarrow> jsstring \<Rightarrow> jsstring" where
  "messageOr (ErrorObject m) fallback = m"
| "messageOr NonError fallback = fallback"

section \<open>types/index.ts\<close>

datatype step = Idle | Creating | Verifying | Waiting | Done | Error

record BucketCreationProgress =
  step :: step
  message :: jsstring

record BucketInfo =
  bucketId :: jsstring
  userId :: jsstring
  mspId :: jsstring
  isPrivate :: bool
  root :: jsstring
  valuePropositionId :: jsstring

text \<open>
  \<open>Bucket\<close> is re-exported from the MSP client SDK; the page reads its \<open>bucketId\<close> and
  \<open>name\<close> only.
\<close>

record Bucket =
  bucket_bucketId :: jsstring
  bucket_name :: jsstring

section \<open>pages/Buckets: the progress stepper\<close>

datatype status = Pending | Active | Completed | Failed

record ProgressStep =
  label :: jsstring
  status :: status

definition steps :: "ProgressStep list" where
  "steps =
     [\<lparr>label = str ''Creating bucket on-chain...'', status = Pending\<rparr>,
      \<lparr>label = str ''Verifying on-chain...'', status = Pending\<rparr>,
      \<lparr>label = str ''Waiting for backend...'', status = Pending\<rparr>,
      \<lparr>label = str ''Done!'', status = Pending\<rparr>]"

text \<open>
  \<open>stepMap\<close> has the four keys \<open>creating\<close>, \<open>verifying\<close>, \<open>waiting\<close>, \<open>done\<close>; looking up
  any other step yields \<open>undefined\<close>, which \<open>??\<close> replaces by \<open>-1\<close>.
\<close>

fun stepMap :: "step \<Rightarrow> int option" where
  "stepMap Creating = Some 0"
| "stepMap Verifying = Some 1"
| "stepMap Waiting = Some 2"
| "stepMap Done = Some 3"
| "stepMap _ = None"

text \<open>\<open>Array.prototype.map\<close> passes each element with its index.\<close>

definition mapIndexed :: "('a \<Rightarrow> int \<Rightarrow> 'b) \<Rightarrow> 'a list \<Rightarrow> 'b list" where
  "mapIndexed f xs = map (\<lambda>(x, i). f x i) (zip xs (map int [0..<length xs]))"

definition getProgressSteps :: "BucketCreationProgress \<Rightarrow> ProgressStep list" where
  "getProgressSteps createProgress =
     (let currentStep = (case stepMap (step createProgress) of Some n \<Rightarrow> n | None \<Rightarrow> - 1)
      in mapIndexed (\<lambda>s index. s\<lparr>status :=
            if step createProgress = Error \<and> index = currentStep then Failed
            else if index < currentStep then Completed
            else if index = currentStep then Active
            else Pending\<rparr>) steps)"

definition highlighted :: "ProgressStep list \<Rightarrow> nat" where
  "highlighted ps = length (filter (\<lambda>p. status p = Active \<or> status p = Failed) ps)"

section \<open>pages/Buckets: state, effects and collaborators\<close>

text \<open>The \<open>useState\<close> cells of the page.\<close>

record BucketsState =
  buckets :: "Bucket list"
  selectedBucket :: "BucketInfo option"
  selectedBucketId :: "jsstring option"
  isLoadingBuckets :: bool
  isLoadingBucketInfo :: bool
  isDeleting :: "jsstring option"
  error :: "jsstring option"
  bucketName :: jsstring
  createProgress :: BucketCreationProgress

definition initialBuckets :: BucketsState where
  "initialBuckets =
     \<lparr>buckets = [], selectedBucket = None, selectedBucketId = None,
      isLoadingBuckets = False, isLoadingBucketInfo = False, isDeleting = None,
      error = None, bucketName = [], createProgress = \<lparr>step = Idle, message = []\<rparr>\<rparr>"

text \<open>
  The synchronous effects of the handlers: \<open>e.preventDefault()\<close>, the state setters, and
  \<open>setTimeout(callback, ms)\<close>, whose callback is itself one setter call.
\<close>

datatype action =
    PreventDefault
  | SetError "jsstring option"
  | SetCreateProgress BucketCreationProgress
  | SetBucketName jsstring
  | SetBuckets "Bucket list"
  | SetIsLoadingBuckets bool
  | SetIsDeleting "jsstring option"
  | SetSelectedBucket "BucketInfo option"
  | SetSelectedBucketId "jsstring option"
  | SetTimeout action nat

fun perform :: "action \<Rightarrow> BucketsState \<Rightarrow> BucketsState" where
  "perform PreventDefault s = s"
| "perform (SetError e) s = s\<lparr>error := e\<rparr>"
| "perform (SetCreateProgress p) s = s\<lparr>createProgress := p\<rparr>"
| "perform (SetBucketName n) s = s\<lparr>bucketName := n\<rparr>"
| "perform (SetBuckets bs) s = s\<lparr>buckets := bs\<rparr>"
| "perform (SetIsLoadingBuckets b) s = s\<lparr>isLoadingBuckets := b\<rparr>"
| "perform (SetIsDeleting d) s = s\<lparr>isDeleting := d\<rparr>"
| "perform (SetSelectedBucket b) s = s\<lparr>selectedBucket := b\<rparr>"
| "perform (SetSelectedBucketId i) s = s\<lparr>selectedBucketId := i\<rparr>"
| "perform (SetTimeout callback ms) s = s"

text \<open>
  The asynchronous operations imported from \<open>services/bucketOperations\<close>. That module
  is outside the page: each operation is a parameter that, for its argument, either
  throws or resolves. \<open>createBucket\<close> resolves with the \<open>bucketId\<close> the page
  destructures from its result. \<open>confirm\<close> is the browser's blocking dialog.
\<close>

record services =
  createBucket :: "jsstring \<Rightarrow> jsstring outcome"
  verifyBucketCreation :: "jsstring \<Rightarrow> BucketInfo outcome"
  waitForBackendBucketReady :: "jsstring \<Rightarrow> unit outcome"
  deleteBucket :: "jsstring \<Rightarrow> unit outcome"
  getBucketsFromMSP :: "Bucket list outcome"
  confirm :: "jsstring \<Rightarrow> bool"

datatype call =
    CreateBucket jsstring
  | VerifyBucketCreation jsstring
  | WaitForBackendBucketReady jsstring
  | DeleteBucket jsstring
  | GetBucketsFromMSP

text \<open>
  What an observer of one handler sees, in order: each effect, each call of a
  collaborator as it is issued, and how each awaited call settles.
\<close>

datatype event =
    Act action
  | Asked jsstring bool
  | Call call
  | Resolved call
  | Rejected call thrown

fun settled :: "call \<Rightarrow> 'a outcome \<Rightarrow> event" where
  "settled c (Inl err) = Rejected c err"
| "settled c (Inr v) = Resolved c"

text \<open>
  An \<open>async\<close> function is a sequence of synchronous effects between \<open>await\<close>s; at an
  \<open>await\<close> it issues the call and is suspended with its continuation, which receives
  the outcome of the call (a rejection is what \<open>try\<close> hands to \<open>catch\<close>).
\<close>

datatype prog =
    Return
  | Do action prog
  | Confirm jsstring "bool \<Rightarrow> prog"
  | AwaitCreateBucket jsstring "jsstring outcome \<Rightarrow> prog"
  | AwaitVerifyBucketCreation jsstring "BucketInfo outcome \<Rightarrow> prog"
  | AwaitWaitForBackendBucketReady jsstring "unit outcome \<Rightarrow> prog"
  | AwaitDeleteBucket jsstring "unit outcome \<Rightarrow> prog"
  | AwaitGetBucketsFromMSP "Bucket list outcome \<Rightarrow> prog"

section \<open>pages/Buckets: the handlers\<close>

text \<open>
  \<open>loadBuckets\<close> (a \<open>useCallback\<close> over \<open>isMspConnected\<close>) catches its own failure, so
  the caller's \<open>await loadBuckets()\<close> always continues with \<open>next\<close>.
\<close>

definition loadBuckets :: "bool \<Rightarrow> prog \<Rightarrow> prog" where
  "loadBuckets isMspConnected next =
     (if \<not> isMspConnected then next
      else
        Do (SetIsLoadingBuckets True)
       (Do (SetError None)
       (AwaitGetBucketsFromMSP (\<lambda>r. case r of
            Inr data \<Rightarrow>
              Do (SetBuckets data)
             (Do (SetIsLoadingBuckets False) next)
          | Inl err \<Rightarrow>
              Do (SetError (Some (messageOr err (str ''Failed to load buckets''))))
             (Do (SetIsLoadingBuckets False) next)))))"

text \<open>The \<open>catch\<close> block of \<open>handleCreateBucket\<close>.\<close>

definition catchCreate :: "thrown \<Rightarrow> prog" where
  "catchCreate err =
     Do (SetCreateProgress
          \<lparr>step = Error, message = messageOr err (str ''Failed to create bucket'')\<rparr>)
    (Do (SetError (Some (messageOr err (str ''Failed to create bucket''))))
     Return)"

text \<open>
  \<open>handleCreateBucket\<close>, closed over the \<open>isMspConnected\<close> and \<open>bucketName\<close> of the
  render that created it.
\<close>

definition handleCreateBucket :: "bool \<Rightarrow> jsstring \<Rightarrow> prog" where
  "handleCreateBucket isMspConnected name =
     Do PreventDefault
    (if trim name = [] then Return
     else
       Do (SetError None)
      (Do (SetCreateProgress \<lparr>step = Creating, message = str ''Creating bucket on-chain...''\<rparr>)
      (AwaitCreateBucket name (\<lambda>r. case r of
           Inl err \<Rightarrow> catchCreate err
         | Inr bId \<Rightarrow>
      Do (SetCreateProgress \<lparr>step = Verifying, message = str ''Verifying bucket on-chain...''\<rparr>)
      (AwaitVerifyBucketCreation bId (\<lambda>r. case r of
           Inl err \<Rightarrow> catchCreate err
         | Inr info \<Rightarrow>
      Do (SetCreateProgress \<lparr>step = Waiting, message = str ''Waiting for backend to index...''\<rparr>)
      (AwaitWaitForBackendBucketReady bId (\<lambda>r. case r of
           Inl err \<Rightarrow> catchCreate err
         | Inr ready \<Rightarrow>
      Do (SetCreateProgress \<lparr>step = Done, message = str ''Bucket created successfully!''\<rparr>)
      (Do (SetBucketName [])
      (loadBuckets isMspConnected
      (Do (SetTimeout (SetCreateProgress \<lparr>step = Idle, message = []\<rparr>) 2000)
       Return)))))))))))"

text \<open>
  \<open>handleDeleteBucket\<close>, closed over \<open>isMspConnected\<close> and \<open>selectedBucketId\<close>. The
  \<open>finally\<close> block (\<open>setIsDeleting(null)\<close>) ends both branches.
\<close>

definition handleDeleteBucket :: "bool \<Rightarrow> jsstring option \<Rightarrow> jsstring \<Rightarrow> prog" where
  "handleDeleteBucket isMspConnected selected bId =
     Confirm (str ''Are you sure you want to delete this bucket?'') (\<lambda>ok.
       if \<not> ok then Return
       else
         Do (SetIsDeleting (Some bId))
        (Do (SetError None)
        (AwaitDeleteBucket bId (\<lambda>r. case r of
             Inr deleted \<Rightarrow>
               loadBuckets isMspConnected
                 (if selected = Some bId
                  then Do (SetSelectedBucket None)
                      (Do (SetSelectedBucketId None)
                      (Do (SetIsDeleting None) Return))
                  else Do (SetIsDeleting None) Return)
           | Inl err \<Rightarrow>
               Do (SetError (Some (messageOr err (str ''Failed to delete bucket''))))
              (Do (SetIsDeleting None) Return)))))"

section \<open>Running a handler\<close>

text \<open>
  One handler run to completion with nothing else running between its \<open>await\<close>s:
  every awaited call settles as the collaborator decides, and the run returns the final
  state with the events in order. A \<open>setTimeout\<close> is recorded as an event; what a timer
  left pending does to a later run is the subject of \<open>runAmid\<close> below.
\<close>

primrec run :: "services \<Rightarrow> prog \<Rightarrow> BucketsState \<times> event list \<Rightarrow> BucketsState \<times> event list" where
  "run env Return w = w"
| "run env (Do a p) w = run env p (perform a (fst w), snd w @ [Act a])"
| "run env (Confirm q k) w = run env (k (confirm env q)) (fst w, snd w @ [Asked q (confirm env q)])"
| "run env (AwaitCreateBucket n k) w =
     run env (k (createBucket env n))
       (fst w, snd w @ [Call (CreateBucket n), settled (CreateBucket n) (createBucket env n)])"
| "run env (AwaitVerifyBucketCreation i k) w =
     run env (k (verifyBucketCreation env i))
       (fst w, snd w @ [Call (VerifyBucketCreation i),
                        settled (VerifyBucketCreation i) (verifyBucketCreation env i)])"
| "run env (AwaitWaitForBackendBucketReady i k) w =
     run env (k (waitForBackendBucketReady env i))
       (fst w, snd w @ [Call (WaitForBackendBucketReady i),
                        settled (WaitForBackendBucketReady i) (waitForBackendBucketReady env i)])"
| "run env (AwaitDeleteBucket i k) w =
     run env (k (deleteBucket env i))
       (fst w, snd w @ [Call (DeleteBucket i), settled (DeleteBucket i) (deleteBucket env i)])"
| "run env (AwaitGetBucketsFromMSP k) w =
     run env (k (getBucketsFromMSP env))
       (fst w, snd w @ [Call GetBucketsFromMSP, settled GetBucketsFromMSP (getBucketsFromMSP env)])"

text \<open>
  The form's \<open>onSubmit\<close> and a row's Delete \<open>onClick\<close>, fired on the render of state \<open>s\<close>
  while no timer is pending (\<open>submitAmid\<close> with no timers is \<open>submitCreate\<close>).
\<close>

definition submitCreate :: "services \<Rightarrow> bool \<Rightarrow> BucketsState \<Rightarrow> BucketsState \<times> event list" where
  "submitCreate env isMspConnected s =
     run env (handleCreateBucket isMspConnected (bucketName s)) (s, [])"

definition clickDelete ::
  "services \<Rightarrow> bool \<Rightarrow> jsstring \<Rightarrow> BucketsState \<Rightarrow> BucketsState \<times> event list" where
  "clickDelete env isMspConnected bId s =
     run env (handleDeleteBucket isMspConnected (selectedBucketId s) bId) (s, [])"

text \<open>The values the progress observer (\<open>setCreateProgress\<close>) receives, in order.\<close>

fun observed :: "event list \<Rightarrow> BucketCreationProgress list" where
  "observed [] = []"
| "observed (Act (SetCreateProgress p) # es) = p # observed es"
| "observed (e # es) = observed es"

text \<open>
  The \<open>disabled\<close> expression of the Create Bucket button in the page's markup.
\<close>

definition createDisabled :: "BucketsState \<Rightarrow> bool" where
  "createDisabled s \<longleftrightarrow>
     trim (bucketName s) = []
     \<or> (step (createProgress s) \<noteq> Idle \<and> step (createProgress s) \<noteq> Done
        \<and> step (createProgress s) \<noteq> Error)"

text \<open>\<open>guarded a b es\<close>: every \<open>b\<close> in \<open>es\<close> comes after some \<open>a\<close>.\<close>

fun guarded :: "event \<Rightarrow> event \<Rightarrow> event list \<Rightarrow> bool" where
  "guarded a b [] = True"
| "guarded a b (e # es) = (e = a \<or> (e \<noteq> b \<and> guarded a b es))"

section \<open>Overlapping handlers\<close>

text \<open>
  JavaScript runs a handler until its first \<open>await\<close>, where it issues the call and
  yields; other handlers may start before that call settles. \<open>start\<close> is this first
  synchronous stretch: it returns the suspended handler (or \<open>Return\<close>) with the state
  and events so far. \<open>awaiting\<close> names the call a suspended handler waits for, and
  \<open>resume\<close> is the handler once that call has settled.
\<close>

primrec start ::
  "(jsstring \<Rightarrow> bool) \<Rightarrow> prog \<Rightarrow> BucketsState \<times> event list \<Rightarrow> prog \<times> BucketsState \<times> event list" where
  "start ask Return w = (Return, w)"
| "start ask (Do a p) w = start ask p (perform a (fst w), snd w @ [Act a])"
| "start ask (Confirm q k) w = start ask (k (ask q)) (fst w, snd w @ [Asked q (ask q)])"
| "start ask (AwaitCreateBucket n k) w =
     (AwaitCreateBucket n k, fst w, snd w @ [Call (CreateBucket n)])"
| "start ask (AwaitVerifyBucketCreation i k) w =
     (AwaitVerifyBucketCreation i k, fst w, snd w @ [Call (VerifyBucketCreation i)])"
| "start ask (AwaitWaitForBackendBucketReady i k) w =
     (AwaitWaitForBackendBucketReady i k, fst w, snd w @ [Call (WaitForBackendBucketReady i)])"
| "start ask (AwaitDeleteBucket i k) w =
     (AwaitDeleteBucket i k, fst w, snd w @ [Call (DeleteBucket i)])"
| "start ask (AwaitGetBucketsFromMSP k) w =
     (AwaitGetBucketsFromMSP k, fst w, snd w @ [Call GetBucketsFromMSP])"

fun awaiting :: "prog \<Rightarrow> call option" where
  "awaiting (AwaitCreateBucket n k) = Some (CreateBucket n)"
| "awaiting (AwaitVerifyBucketCreation i k) = Some (VerifyBucketCreation i)"
| "awaiting (AwaitWaitForBackendBucketReady i k) = Some (WaitForBackendBucketReady i)"
| "awaiting (AwaitDeleteBucket i k) = Some (DeleteBucket i)"
| "awaiting (AwaitGetBucketsFromMSP k) = Some GetBucketsFromMSP"
| "awaiting p = None"

fun resume :: "services \<Rightarrow> prog \<Rightarrow> prog \<times> event list" where
  "resume env (AwaitCreateBucket n k) =
     (k (createBucket env n), [settled (CreateBucket n) (createBucket env n)])"
| "resume env (AwaitVerifyBucketCreation i k) =
     (k (verifyBucketCreation env i),
      [settled (VerifyBucketCreation i) (verifyBucketCreation env i)])"
| "resume env (AwaitWaitForBackendBucketReady i k) =
     (k (waitForBackendBucketReady env i),
      [settled (WaitForBackendBucketReady i) (waitForBackendBucketReady env i)])"
| "resume env (AwaitDeleteBucket i k) =
     (k (deleteBucket env i), [settled (DeleteBucket i) (deleteBucket env i)])"
| "resume env (AwaitGetBucketsFromMSP k) =
     (k (getBucketsFromMSP env), [settled GetBucketsFromMSP (getBucketsFromMSP env)])"
| "resume env p = (p, [])"

text \<open>What remains of a run after \<open>start\<close>: nothing, or the settling of the awaited call
  and the run of the resumed handler.\<close>

definition finish :: "services \<Rightarrow> prog \<times> BucketsState \<times> event list \<Rightarrow> BucketsState \<times> event list" where
  "finish env r =
     (case awaiting (fst r) of
        None \<Rightarrow> snd r
      | Some c \<Rightarrow>
          run env (fst (resume env (fst r))) (fst (snd r), snd (snd r) @ snd (resume env (fst r))))"

text \<open>
  Two submits of the form, the second fired while the first is suspended at its first
  \<open>await\<close>; likewise two clicks on Delete for one bucket. Each yields the two suspended
  handlers and the page with all events so far.
\<close>

definition submitTwice ::
  "bool \<Rightarrow> BucketsState \<Rightarrow> prog \<times> prog \<times> BucketsState \<times> event list" where
  "submitTwice isMspConnected s =
     (let first = start (\<lambda>q. True) (handleCreateBucket isMspConnected (bucketName s)) (s, []);
          s1 = fst (snd first);
          second = start (\<lambda>q. True) (handleCreateBucket isMspConnected (bucketName s1)) (snd first)
      in (fst first, fst second, snd second))"

definition deleteTwice ::
  "bool \<Rightarrow> jsstring \<Rightarrow> BucketsState \<Rightarrow> prog \<times> prog \<times> BucketsState \<times> event list" where
  "deleteTwice isMspConnected bId s =
     (let first = start (\<lambda>q. True) (handleDeleteBucket isMspConnected (selectedBucketId s) bId) (s, []);
          s1 = fst (snd first);
          second = start (\<lambda>q. True) (handleDeleteBucket isMspConnected (selectedBucketId s1) bId)
                     (snd first)
      in (fst first, fst second, snd second))"

section \<open>Pending timers\<close>

text \<open>
  \<open>setTimeout\<close> queues its callback; nothing in the page ever clears a timer. While a
  handler is suspended at an \<open>await\<close> the event loop is free, so the timers that run out
  meanwhile call their callbacks, in the order they were set, before the handler resumes.
  \<open>late c\<close> says that the call \<open>c\<close> outlasts the timers pending when it is issued.
\<close>

fun queued :: "action \<Rightarrow> action list \<Rightarrow> action list" where
  "queued (SetTimeout callback ms) timers = timers @ [callback]"
| "queued a timers = timers"

definition fire :: "action list \<Rightarrow> BucketsState \<times> event list \<Rightarrow> BucketsState \<times> event list" where
  "fire timers w =
     foldl (\<lambda>w callback. (perform callback (fst w), snd w @ [Act callback])) w timers"

text \<open>
  The page, the events and the timers left once the call \<open>c\<close>, issued with \<open>timers\<close>
  pending, has settled with the event \<open>e\<close>.
\<close>

definition elapse ::
  "(call \<Rightarrow> bool) \<Rightarrow> call \<Rightarrow> event \<Rightarrow> action list \<Rightarrow> BucketsState \<times> event list
     \<Rightarrow> action list \<times> BucketsState \<times> event list" where
  "elapse late c e timers w =
     (if late c
      then ([], fst (fire timers (fst w, snd w @ [Call c])),
                snd (fire timers (fst w, snd w @ [Call c])) @ [e])
      else (timers, fst w, snd w @ [Call c, e]))"

primrec runAmid ::
  "services \<Rightarrow> (call \<Rightarrow> bool) \<Rightarrow> prog \<Rightarrow> action list \<Rightarrow> BucketsState \<times> event list
     \<Rightarrow> action list \<times> BucketsState \<times> event list" where
  "runAmid env late Return timers w = (timers, w)"
| "runAmid env late (Do a p) timers w =
     runAmid env late p (queued a timers) (perform a (fst w), snd w @ [Act a])"
| "runAmid env late (Confirm q k) timers w =
     runAmid env late (k (confirm env q)) timers (fst w, snd w @ [Asked q (confirm env q)])"
| "runAmid env late (AwaitCreateBucket n k) timers w =
     runAmid env late (k (createBucket env n))
       (fst (elapse late (CreateBucket n) (settled (CreateBucket n) (createBucket env n)) timers w))
       (snd (elapse late (CreateBucket n) (settled (CreateBucket n) (createBucket env n)) timers w))"
| "runAmid env late (AwaitVerifyBucketCreation i k) timers w =
     runAmid env late (k (verifyBucketCreation env i))
       (fst (elapse late (VerifyBucketCreation i)
               (settled (VerifyBucketCreation i) (verifyBucketCreation env i)) timers w))
       (snd (elapse late (VerifyBucketCreation i)
               (settled (VerifyBucketCreation i) (verifyBucketCreation env i)) timers w))"
| "runAmid env late (AwaitWaitForBackendBucketReady i k) timers w =
     runAmid env late (k (waitForBackendBucketReady env i))
       (fst (elapse late (WaitForBackendBucketReady i)
               (settled (WaitForBackendBucketReady i) (waitForBackendBucketReady env i)) timers w))
       (snd (elapse late (WaitForBackendBucketReady i)
               (settled (WaitForBackendBucketReady i) (waitForBackendBucketReady env i)) timers w))"
| "runAmid env late (AwaitDeleteBucket i k) timers w =
     runAmid env late (k (deleteBucket env i))
       (fst (elapse late (DeleteBucket i) (settled (DeleteBucket i) (deleteBucket env i)) timers w))
       (snd (elapse late (DeleteBucket i) (settled (DeleteBucket i) (deleteBucket env i)) timers w))"
| "runAmid env late (AwaitGetBucketsFromMSP k) timers w =
     runAmid env late (k (getBucketsFromMSP env))
       (fst (elapse late GetBucketsFromMSP
               (settled GetBucketsFromMSP (getBucketsFromMSP env)) timers w))
       (snd (elapse late GetBucketsFromMSP
               (settled GetBucketsFromMSP (getBucketsFromMSP env)) timers w))"

text \<open>The form's \<open>onSubmit\<close> fired on the render of state \<open>s\<close> with \<open>timers\<close> pending.\<close>

definition submitAmid ::
  "services \<Rightarrow> (call \<Rightarrow> bool) \<Rightarrow> bool \<Rightarrow> action list \<Rightarrow> BucketsState
     \<Rightarrow> action list \<times> BucketsState \<times> event list" where
  "submitAmid env late isMspConnected timers s =
     runAmid env late (handleCreateBucket isMspConnected (bucketName s)) timers (s, [])"

section \<open>The backend-readiness wait\<close>

text \<open>
  Modelled from the spec: \<open>waitForBackendBucketReady\<close> is exported by
  \<open>services/bucketOperations\<close>, which is not among the sources. The spec (4.1, phase 3)
  has it query the backend for the identity repeatedly until the returned view's content
  root equals the ledger record's, or the wait budget is exhausted, which fails with
  \<open>BackendIndexTimeout\<close>; a view with stale content, a missing record and a transport
  error all count as not yet ready. The list holds the backend's answers to the polls
  that fit in the budget.
\<close>

datatype BackendAnswer = BackendView jsstring | NotFoundYet | TransportError

fun awaitBackend :: "jsstring \<Rightarrow> BackendAnswer list \<Rightarrow> unit outcome" where
  "awaitBackend ledgerRoot [] = Inl (ErrorObject (str ''BackendIndexTimeout''))"
| "awaitBackend ledgerRoot (BackendView r # answers) =
     (if r = ledgerRoot then Inr () else awaitBackend ledgerRoot answers)"
| "awaitBackend ledgerRoot (NotFoundYet # answers) = awaitBackend ledgerRoot answers"
| "awaitBackend ledgerRoot (TransportError # answers) = awaitBackend ledgerRoot answers"

text \<open>
  Modelled from the spec: the page passes the wait nothing but the identity, so the wait
  takes the ledger record of that identity from the ledger itself, as
  \<open>verifyBucketCreation\<close> reports it.
\<close>

definition specWait ::
  "(jsstring \<Rightarrow> BucketInfo outcome) \<Rightarrow> (jsstring \<Rightarrow> BackendAnswer list) \<Rightarrow> jsstring \<Rightarrow> unit outcome" where
  "specWait ledger backend bId =
     (case ledger bId of
        Inl err \<Rightarrow> Inl err
      | Inr record \<Rightarrow> awaitBackend (root record) (backend bId))"

section \<open>Scenarios\<close>

definition docs :: BucketsState where
  "docs = initialBuckets\<lparr>bucketName := str ''docs''\<rparr>"

definition recordB1 :: BucketInfo where
  "recordB1 =
     \<lparr>bucketId = str ''B1'', userId = str ''0xowner'', mspId = str ''msp1'', isPrivate = False,
      root = str ''0xaa'', valuePropositionId = str ''vp1''\<rparr>"

definition happy :: services where
  "happy =
     \<lparr>createBucket = (\<lambda>n. Inr (str ''B1'')),
      verifyBucketCreation = (\<lambda>b. Inr recordB1),
      waitForBackendBucketReady = (\<lambda>b. Inr ()),
      deleteBucket = (\<lambda>b. Inr ()),
      getBucketsFromMSP = Inr [\<lparr>bucket_bucketId = str ''B1'', bucket_name = str ''docs''\<rparr>],
      confirm = (\<lambda>q. True)\<rparr>"

definition polls :: "jsstring \<Rightarrow> BackendAnswer list" where
  "polls b = [NotFoundYet, NotFoundYet, BackendView (str ''0xaa'')]"

text \<open>
  The page and events left by a first submit of the form, and by a first click on
  Delete, each suspended at its first \<open>await\<close>.
\<close>

definition creating :: "BucketsState \<times> event list" where
  "creating = snd (start (\<lambda>q. True) (handleCreateBucket True (bucketName docs)) (docs, []))"

definition deleting :: "BucketsState \<times> event list" where
  "deleting =
     snd (start (\<lambda>q. True) (handleDeleteBucket True (selectedBucketId docs) (str ''B1'')) (docs, []))"

text \<open>
  A first bucket \<open>docs\<close> is created with no call outlasting anything; within the two
  seconds of its reset timer the user types \<open>pics\<close> into the name input (its \<open>onChange\<close>
  is \<open>setBucketName\<close>) and submits again, and this time \<open>createBucket\<close> outlasts the timer.
\<close>

definition afterDocs :: "action list \<times> BucketsState \<times> event list" where
  "afterDocs = submitAmid happy (\<lambda>c. False) True [] docs"

definition pics :: BucketsState where
  "pics = perform (SetBucketName (str ''pics'')) (fst (snd afterDocs))"

definition afterPics :: "action list \<times> BucketsState \<times> event list" where
  "afterPics = submitAmid happy (\<lambda>c. c = CreateBucket (str ''pics'')) True (fst afterDocs) pics"

definition insufficient :: services where
  "insufficient = happy\<lparr>createBucket := (\<lambda>n. Inl (ErrorObject (str ''insufficient balance'')))\<rparr>"

definition rejecting :: services where
  "rejecting = happy\<lparr>createBucket := (\<lambda>n. Inl NonError)\<rparr>"

definition lagging :: services where
  "lagging = happy\<lparr>waitForBackendBucketReady := (\<lambda>b. Inl NonError)\<rparr>"

definition reconciled :: services where
  "reconciled = happy\<lparr>waitForBackendBucketReady := specWait (verifyBucketCreation happy) polls\<rparr>"

section \<open>context/AppContext: the provider\<close>

text \<open>
  \<open>InfoResponse\<close> and \<open>UserInfo\<close> are SDK types the provider only stores: they are the
  type parameters \<open>'i\<close> and \<open>'u\<close>.
\<close>

record ('i, 'u) AppState =
  isWalletConnected :: bool
  isMspConnected :: bool
  isAuthenticated :: bool
  address :: "jsstring option"
  mspInfo :: "'i option"
  userProfile :: "'u option"

definition initialAppState :: "('i, 'u) AppState" where
  "initialAppState =
     \<lparr>isWalletConnected = False, isMspConnected = False, isAuthenticated = False,
      address = None, mspInfo = None, userProfile = None\<rparr>"

text \<open>
  The provider's three \<open>useState\<close> cells (its \<open>error\<close> cell is \<open>lastError\<close> here, the
  page's state owning the field name \<open>error\<close>) and the module-level \<open>wasmInitialized\<close>.
  \<open>initWasmLog\<close> is not program state: it records each invocation of \<open>initWasm\<close> with
  how it settled.
\<close>

record ('i, 'u) App =
  state :: "('i, 'u) AppState"
  isLoading :: bool
  lastError :: "jsstring option"
  wasmInitialized :: bool
  initWasmLog :: "unit outcome list"

definition initialApp :: "('i, 'u) App" where
  "initialApp =
     \<lparr>state = initialAppState, isLoading = False, lastError = None,
      wasmInitialized = False, initWasmLog = []\<rparr>"

text \<open>
  What \<open>@storagehub-sdk/core\<close>, \<open>clientService\<close> and \<open>mspService\<close> answer during one
  invocation of an operation. Those modules are outside the provider, so each answer is
  a parameter: a call throws or returns (resolves), a synchronous getter returns.
  \<open>connectWalletService\<close>, \<open>getConnectedAddress\<close> and \<open>restoreWalletConnection\<close>
  yield what \<open>AppState.address\<close> admits, an address or \<open>null\<close>; \<open>disconnectWallet\<close> and
  \<open>disconnectMsp\<close> are the synchronous calls \<open>disconnect\<close> makes.
\<close>

record ('i, 'u) answers =
  initWasm :: "unit outcome"
  connectWalletService :: "jsstring option outcome"
  initPolkadotApi :: "unit outcome"
  connectToMsp :: "unit outcome"
  getMspInfo :: "'i outcome"
  authUser :: "'u outcome"
  getConnectedAddress :: "jsstring option"
  restoreWalletConnection :: "jsstring option outcome"
  checkAuth :: bool
  getUserProfile :: "'u option"
  disconnectWallet :: "unit outcome"
  disconnectMsp :: "unit outcome"

text \<open>\<open>!x\<close> for \<open>x : string | null\<close>: \<open>null\<close> and the empty string are falsy.\<close>

fun falsy :: "jsstring option \<Rightarrow> bool" where
  "falsy None = True"
| "falsy (Some x) = (x = [])"

text \<open>
  The block \<open>if (!wasmInitialized) { await initWasm(); wasmInitialized = true; }\<close>, which
  \<open>connectWallet\<close> and \<open>restoreSession\<close> both open their \<open>try\<close> with.
\<close>

definition initWasmIfNeeded :: "('i, 'u) answers \<Rightarrow> ('i, 'u) App \<Rightarrow> ('i, 'u) App \<times> unit outcome" where
  "initWasmIfNeeded env a =
     (if \<not> wasmInitialized a then
        (case initWasm env of
           Inl err \<Rightarrow> (a\<lparr>initWasmLog := initWasmLog a @ [Inl err]\<rparr>, Inl err)
         | Inr ready \<Rightarrow> (a\<lparr>initWasmLog := initWasmLog a @ [Inr ()], wasmInitialized := True\<rparr>, Inr ()))
      else (a, Inr ()))"

text \<open>
  The \<open>catch\<close> and \<open>finally\<close> of \<open>connectWallet\<close>, \<open>connectMsp\<close> and \<open>authenticateUser\<close>:
  store the message, rethrow, and clear \<open>isLoading\<close>.
\<close>

definition rethrow :: "jsstring \<Rightarrow> thrown \<Rightarrow> ('i, 'u) App \<Rightarrow> ('i, 'u) App \<times> unit outcome" where
  "rethrow fallback err a = (a\<lparr>lastError := Some (messageOr err fallback), isLoading := False\<rparr>, Inl err)"

definition connectWallet :: "('i, 'u) answers \<Rightarrow> ('i, 'u) App \<Rightarrow> ('i, 'u) App \<times> unit outcome" where
  "connectWallet env a0 =
     (let a1 = a0\<lparr>isLoading := True, lastError := None\<rparr>
      in case initWasmIfNeeded env a1 of
           (a2, Inl err) \<Rightarrow> rethrow (str ''Failed to connect wallet'') err a2
         | (a2, Inr ready) \<Rightarrow>
      (case connectWalletService env of
           Inl err \<Rightarrow> rethrow (str ''Failed to connect wallet'') err a2
         | Inr addr \<Rightarrow>
      (case initPolkadotApi env of
           Inl err \<Rightarrow> rethrow (str ''Failed to connect wallet'') err a2
         | Inr api \<Rightarrow>
             (a2\<lparr>state := (state a2)\<lparr>isWalletConnected := True, address := addr\<rparr>,
                 isLoading := False\<rparr>, Inr ()))))"

text \<open>
  \<open>disconnect\<close> calls \<open>disconnectWallet()\<close> and \<open>disconnectMsp()\<close> and then sets the
  state, with no \<open>try\<close> around them: if either throws, \<open>disconnect\<close> throws at once and
  \<open>setState\<close> is not reached.
\<close>

definition disconnect :: "('i, 'u) answers \<Rightarrow> ('i, 'u) App \<Rightarrow> ('i, 'u) App \<times> unit outcome" where
  "disconnect env a =
     (case disconnectWallet env of
        Inl err \<Rightarrow> (a, Inl err)
      | Inr walletLeft \<Rightarrow>
     (case disconnectMsp env of
        Inl err \<Rightarrow> (a, Inl err)
      | Inr mspLeft \<Rightarrow>
          (a\<lparr>state :=
              \<lparr>isWalletConnected = False, isMspConnected = False, isAuthenticated = False,
               address = None, mspInfo = None, userProfile = None\<rparr>\<rparr>,
           Inr ())))"

definition connectMsp :: "('i, 'u) answers \<Rightarrow> ('i, 'u) App \<Rightarrow> ('i, 'u) App \<times> unit outcome" where
  "connectMsp env a0 =
     (let a1 = a0\<lparr>isLoading := True, lastError := None\<rparr>
      in case connectToMsp env of
           Inl err \<Rightarrow> rethrow (str ''Failed to connect to MSP'') err a1
         | Inr connected \<Rightarrow>
      (case getMspInfo env of
           Inl err \<Rightarrow> rethrow (str ''Failed to connect to MSP'') err a1
         | Inr info \<Rightarrow>
             (a1\<lparr>state := (state a1)\<lparr>isMspConnected := True, mspInfo := Some info\<rparr>,
                 isLoading := False\<rparr>, Inr ())))"

definition authenticateUser :: "('i, 'u) answers \<Rightarrow> ('i, 'u) App \<Rightarrow> ('i, 'u) App \<times> unit outcome" where
  "authenticateUser env a0 =
     (let a1 = a0\<lparr>isLoading := True, lastError := None\<rparr>
      in case authUser env of
           Inl err \<Rightarrow> rethrow (str ''Failed to authenticate'') err a1
         | Inr profile \<Rightarrow>
             (a1\<lparr>state := (state a1)\<lparr>isAuthenticated := True, userProfile := Some profile\<rparr>,
                 isLoading := False\<rparr>, Inr ()))"

text \<open>
  \<open>restoreSession\<close>, the mount effect. Its \<open>catch\<close> swallows every failure, and
  \<open>finally\<close> clears \<open>isLoading\<close> on each way out of the \<open>try\<close>, the early \<open>return\<close>
  included.
\<close>

definition restoreSession :: "('i, 'u) answers \<Rightarrow> ('i, 'u) App \<Rightarrow> ('i, 'u) App" where
  "restoreSession env a0 =
     (if falsy (getConnectedAddress env) then a0
      else
        let a1 = a0\<lparr>isLoading := True\<rparr>
        in case initWasmIfNeeded env a1 of
             (a2, Inl err) \<Rightarrow> a2\<lparr>isLoading := False\<rparr>
           | (a2, Inr ready) \<Rightarrow>
        (case restoreWalletConnection env of
             Inl err \<Rightarrow> a2\<lparr>isLoading := False\<rparr>
           | Inr restoredAddress \<Rightarrow>
        if falsy restoredAddress then a2\<lparr>isLoading := False\<rparr>
        else
        (case initPolkadotApi env of
             Inl err \<Rightarrow> a2\<lparr>isLoading := False\<rparr>
           | Inr api \<Rightarrow>
        if checkAuth env then
          (case connectToMsp env of
               Inl err \<Rightarrow> a2\<lparr>isLoading := False\<rparr>
             | Inr connected \<Rightarrow>
          (case getMspInfo env of
               Inl err \<Rightarrow> a2\<lparr>isLoading := False\<rparr>
             | Inr info \<Rightarrow>
                 a2\<lparr>state :=
                      \<lparr>isWalletConnected = True, isMspConnected = True, isAuthenticated = True,
                       address = restoredAddress, mspInfo = Some info,
                       userProfile = getUserProfile env\<rparr>,
                    isLoading := False\<rparr>))
        else
          a2\<lparr>state := (state a2)\<lparr>isWalletConnected := True, address := restoredAddress\<rparr>,
             isLoading := False\<rparr>)))"

text \<open>
  A history of the provider: operations invoked one after the other, each with the
  answers the outside world gives during it.
\<close>

datatype ('i, 'u) operation =
    ConnectWallet "('i, 'u) answers"
  | Disconnect "('i, 'u) answers"
  | ConnectMsp "('i, 'u) answers"
  | AuthenticateUser "('i, 'u) answers"
  | RestoreSession "('i, 'u) answers"

fun invoke :: "('i, 'u) operation \<Rightarrow> ('i, 'u) App \<Rightarrow> ('i, 'u) App" where
  "invoke (ConnectWallet env) a = fst (connectWallet env a)"
| "invoke (Disconnect env) a = fst (disconnect env a)"
| "invoke (ConnectMsp env) a = fst (connectMsp env a)"
| "invoke (AuthenticateUser env) a = fst (authenticateUser env a)"
| "invoke (RestoreSession env) a = restoreSession env a"

definition history :: "('i, 'u) operation list \<Rightarrow> ('i, 'u) App" where
  "history ops = foldl (\<lambda>a operation. invoke operation a) initialApp ops"

fun succeeded :: "'a outcome \<Rightarrow> bool" where
  "succeeded (Inl err) = False"
| "succeeded (Inr v) = True"

text \<open>
  Four answer sets: everything works; the same with a failing \<open>initWasm\<close>; with a
  \<open>disconnectWallet\<close> that throws; with a \<open>connectWalletService\<close> that resolves with
  \<open>null\<close>.
\<close>

definition online :: "(nat, nat) answers" where
  "online =
     \<lparr>initWasm = Inr (), connectWalletService = Inr (Some (str ''0xabc'')),
      initPolkadotApi = Inr (),
      connectToMsp = Inr (), getMspInfo = Inr 1, authUser = Inr 2,
      getConnectedAddress = Some (str ''0xabc''), restoreWalletConnection = Inr (Some (str ''0xabc'')),
      checkAuth = True, getUserProfile = Some 2,
      disconnectWallet = Inr (), disconnectMsp = Inr ()\<rparr>"

definition wasmDown :: "(nat, nat) answers" where
  "wasmDown = online\<lparr>initWasm := Inl (ErrorObject (str ''wasm fetch failed''))\<rparr>"

definition walletStuck :: "(nat, nat) answers" where
  "walletStuck = online\<lparr>disconnectWallet := Inl (ErrorObject (str ''wallet busy''))\<rparr>"

definition addressless :: "(nat, nat) answers" where
  "addressless = online\<lparr>connectWalletService := Inr None\<rparr>"

text \<open>
  \<open>connectWallet\<close> stores what \<open>connectWalletService\<close> resolves with unchecked (only
  \<open>restoreSession\<close> tests its address), so the wallet invariant needs every
  \<open>connectWallet\<close> of a history to have been answered with an address or a failure.
\<close>

fun answered :: "('i, 'u) operation \<Rightarrow> bool" where
  "answered (ConnectWallet env) = (connectWalletService env \<noteq> Inr None)"
| "answered operation = True"

text \<open>The two invariants of the provider's histories.\<close>

definition walletHasAddress :: "('i, 'u) App \<Rightarrow> bool" where
  "walletHasAddress a \<longleftrightarrow> (isWalletConnected (state a) \<longrightarrow> address (state a) \<noteq> None)"

definition initOnce :: "('i, 'u) App \<Rightarrow> bool" where
  "initOnce a \<longleftrightarrow>
     (if wasmInitialized a then length (filter succeeded (initWasmLog a)) = 1
      else filter succeeded (initWasmLog a) = [])"

section \<open>Properties of the progress stepper\<close>

lemma getProgressSteps_status:
  "map status (getProgressSteps p) =
     (case step p of
        Creating \<Rightarrow> [Active, Pending, Pending, Pending]
      | Verifying \<Rightarrow> [Completed, Active, Pending, Pending]
      | Waiting \<Rightarrow> [Completed, Completed, Active, Pending]
      | Done \<Rightarrow> [Completed, Completed, Completed, Active]
      | _ \<Rightarrow> [Pending, Pending, Pending, Pending])"
  by (cases "step p") (simp_all add: getProgressSteps_def steps_def mapIndexed_def upt_rec)

lemma highlighted_status:
  "highlighted ps = length (filter (\<lambda>s. s = Active \<or> s = Failed) (map status ps))"
  by (simp add: highlighted_def filter_map comp_def)

text \<open>
  C9. \<open>getProgressSteps\<close> is total and always returns four steps, at most one of them
  active or failed. For \<open>creating\<close>, \<open>verifying\<close>, \<open>waiting\<close>, \<open>done\<close> the steps before
  the current one are completed, the current one is active and the later ones pending;
  for \<open>idle\<close> and \<open>error\<close> all four are pending, so no step is ever shown as failed.
\<close>

theorem getProgressSteps_shape:
  "length (getProgressSteps p) = 4
   \<and> highlighted (getProgressSteps p) \<le> 1
   \<and> Failed \<notin> set (map status (getProgressSteps p))
   \<and> map status (getProgressSteps \<lparr>step = Creating, message = m\<rparr>) = [Active, Pending, Pending, Pending]
   \<and> map status (getProgressSteps \<lparr>step = Verifying, message = m\<rparr>) = [Completed, Active, Pending, Pending]
   \<and> map status (getProgressSteps \<lparr>step = Waiting, message = m\<rparr>) = [Completed, Completed, Active, Pending]
   \<and> map status (getProgressSteps \<lparr>step = Done, message = m\<rparr>) = [Completed, Completed, Completed, Active]
   \<and> map status (getProgressSteps \<lparr>step = Idle, message = m\<rparr>) = [Pending, Pending, Pending, Pending]
   \<and> map status (getProgressSteps \<lparr>step = Error, message = m\<rparr>) = [Pending, Pending, Pending, Pending]"
proof -
  have len: "length (getProgressSteps p) = 4"
    by (simp add: getProgressSteps_def steps_def mapIndexed_def Let_def)
  have hl: "highlighted (getProgressSteps p) \<le> 1"
    unfolding highlighted_status getProgressSteps_status by (cases "step p") simp_all
  have nf: "Failed \<notin> set (map status (getProgressSteps p))"
    unfolding getProgressSteps_status by (cases "step p") simp_all
  show ?thesis
    using len hl nf by (simp add: getProgressSteps_status)
qed

section \<open>Properties of the bucket handlers\<close>

lemma dropWhile_all_iff:
  "(\<forall>x \<in> set (dropWhile P xs). P x) \<longleftrightarrow> (\<forall>x \<in> set xs. P x)"
proof (cases "dropWhile P xs")
  case Nil
  then have everywhere: "\<forall>x \<in> set xs. P x"
    by (simp only: dropWhile_eq_Nil_conv)
  show ?thesis unfolding Nil using everywhere by simp
next
  case (Cons y ys)
  then have kept: "y \<in> set (dropWhile P xs)" by simp
  then have "y \<in> set xs" by (rule set_dropWhileD)
  moreover have "\<not> P y" using hd_dropWhile [of P xs] Cons by simp
  ultimately show ?thesis using kept by blast
qed

lemma trim_Nil_iff: "trim s = [] \<longleftrightarrow> (\<forall>c \<in> set s. isWhiteSpace c)"
  by (simp add: trim_def dropWhile_all_iff)

lemma trim_docs: "trim (str ''docs'') = str ''docs''"
  by (simp add: trim_def str_def isWhiteSpace_def)

lemma str_docs_nonempty: "str ''docs'' \<noteq> []"
  by (simp add: str_def)

lemmas handler_defs =
  submitCreate_def clickDelete_def handleCreateBucket_def handleDeleteBucket_def
  loadBuckets_def catchCreate_def

lemmas scenario_defs = docs_def initialBuckets_def happy_def recordB1_def

text \<open>
  Running a handler to completion is running it to its first \<open>await\<close>, letting the call
  settle and running what remains.
\<close>

lemma run_start_resume: "run env p w = finish env (start (confirm env) p w)"
  by (induction p arbitrary: w) (simp_all add: finish_def)

lemma awaitBackend_ready:
  "awaitBackend r answers = Inr u \<Longrightarrow> BackendView r \<in> set answers"
  by (induction r answers rule: awaitBackend.induct) (auto split: if_splits)

text \<open>
  A run that nothing disturbs: if \<open>createBucket\<close>, \<open>verifyBucketCreation\<close> and
  \<open>waitForBackendBucketReady\<close> all resolve, the handler's own calls of
  \<open>setCreateProgress\<close> are creating, verifying, waiting, done, in this order and each
  once; its last act is to set the timer that resets the progress to idle.
\<close>

lemma undisturbed_phases:
  assumes "Resolved (CreateBucket n) \<in> set (snd (submitCreate env m s))"
    and "Resolved (VerifyBucketCreation b) \<in> set (snd (submitCreate env m s))"
    and "Resolved (WaitForBackendBucketReady b') \<in> set (snd (submitCreate env m s))"
  shows "map step (observed (snd (submitCreate env m s))) = [Creating, Verifying, Waiting, Done]"
  using assms by (auto simp: handler_defs split: sum.splits if_splits)

text \<open>
  With no timer firing, \<open>runAmid\<close> is \<open>run\<close>; and a submit with no timer pending is
  \<open>submitCreate\<close>, however long its calls take, since the handler sets its own timer
  after its last \<open>await\<close>.
\<close>

lemma runAmid_quiet: "snd (runAmid env (\<lambda>c. False) p timers w) = run env p w"
  by (induction p arbitrary: timers w) (simp_all add: elapse_def)

lemma elapse_no_timers: "elapse late c e [] w = ([], fst w, snd w @ [Call c, e])"
  by (simp add: elapse_def fire_def)

lemma submitAmid_no_timers: "snd (submitAmid env late m [] s) = submitCreate env m s"
  by (simp add: submitAmid_def handler_defs elapse_no_timers split: sum.split)

lemma trim_pics: "trim (str ''pics'') = str ''pics''"
  by (simp add: trim_def str_def isWhiteSpace_def)

lemma str_pics_nonempty: "str ''pics'' \<noteq> []"
  by (simp add: str_def)

lemma afterDocs_eq:
  "afterDocs =
     ([SetCreateProgress \<lparr>step = Idle, message = []\<rparr>],
      docs\<lparr>buckets := [\<lparr>bucket_bucketId = str ''B1'', bucket_name = str ''docs''\<rparr>],
           bucketName := [],
           createProgress := \<lparr>step = Done, message = str ''Bucket created successfully!''\<rparr>\<rparr>,
      snd (submitCreate happy True docs))"
  by (simp add: afterDocs_def submitAmid_def handler_defs scenario_defs elapse_def
      trim_docs str_docs_nonempty)

text \<open>
  C1. The spec has the observer of a successful creation receive exactly creating,
  verifying, waiting, done. The page breaks this: the reset timer of a finished creation
  is never cleared, and in step done the Create button is enabled. After \<open>docs\<close> is
  created its timer is pending; the user types \<open>pics\<close> and submits while the progress
  is still done; \<open>createBucket\<close>, \<open>verifyBucketCreation\<close> and
  \<open>waitForBackendBucketReady\<close> all resolve in this second run, yet the first run's
  timer fires while \<open>createBucket\<close> is awaited and the observer receives creating,
  idle, verifying, waiting, done.
\<close>

theorem stale_reset_lands_midrun:
  "fst afterDocs = [SetCreateProgress \<lparr>step = Idle, message = []\<rparr>]
   \<and> step (createProgress pics) = Done
   \<and> \<not> createDisabled pics
   \<and> filter (\<lambda>e. e = Resolved (CreateBucket (str ''pics''))
               \<or> e = Resolved (VerifyBucketCreation (str ''B1''))
               \<or> e = Resolved (WaitForBackendBucketReady (str ''B1''))) (snd (snd afterPics))
        = [Resolved (CreateBucket (str ''pics'')), Resolved (VerifyBucketCreation (str ''B1'')),
           Resolved (WaitForBackendBucketReady (str ''B1''))]
   \<and> map step (observed (snd (snd afterPics))) = [Creating, Idle, Verifying, Waiting, Done]"
  by (simp add: afterPics_def pics_def afterDocs_eq submitAmid_def handler_defs scenario_defs
      elapse_def fire_def createDisabled_def trim_pics str_pics_nonempty)

text \<open>
  C2. The done phase is reported only after \<open>waitForBackendBucketReady\<close> has resolved
  for the bucket that \<open>createBucket\<close> returned; and when the wait is the one the spec
  describes, it has by then received a backend view whose root is the root of the ledger
  record, so no run ends in done on mismatched content.
\<close>

theorem done_only_after_backend_ready:
  assumes "Done \<in> set (map step (observed (snd (submitCreate env m s))))"
  shows "\<exists>b. createBucket env (bucketName s) = Inr b
      \<and> Resolved (WaitForBackendBucketReady b) \<in> set (snd (submitCreate env m s))
      \<and> guarded (Resolved (WaitForBackendBucketReady b))
          (Act (SetCreateProgress \<lparr>step = Done, message = str ''Bucket created successfully!''\<rparr>))
          (snd (submitCreate env m s))
      \<and> (waitForBackendBucketReady env = specWait (verifyBucketCreation env) backend \<longrightarrow>
           (\<exists>record. verifyBucketCreation env b = Inr record
              \<and> BackendView (root record) \<in> set (backend b)))"
  using assms
  by (auto simp: handler_defs specWait_def dest: awaitBackend_ready split: sum.splits if_splits)

theorem done_only_after_backend_ready_witness:
  "Done \<in> set (map step (observed (snd (submitCreate reconciled True docs))))
   \<and> Resolved (WaitForBackendBucketReady (str ''B1'')) \<in> set (snd (submitCreate reconciled True docs))
   \<and> waitForBackendBucketReady reconciled = specWait (verifyBucketCreation reconciled) polls
   \<and> BackendView (root recordB1) \<in> set (polls (str ''B1''))"
proof -
  have w: "waitForBackendBucketReady reconciled = specWait (verifyBucketCreation reconciled) polls"
    by (simp add: reconciled_def)
  have ok: "waitForBackendBucketReady reconciled (str ''B1'') = Inr ()"
    by (simp add: reconciled_def happy_def specWait_def polls_def recordB1_def)
  have d: "Done \<in> set (map step (observed (snd (submitCreate reconciled True docs))))"
    using ok by (simp add: handler_defs docs_def initialBuckets_def reconciled_def happy_def
        trim_docs str_docs_nonempty)
  have c: "createBucket reconciled (bucketName docs) = Inr (str ''B1'')"
    by (simp add: reconciled_def happy_def)
  have v: "verifyBucketCreation reconciled (str ''B1'') = Inr recordB1"
    by (simp add: reconciled_def happy_def)
  show ?thesis using d w c v done_only_after_backend_ready [OF d, of polls] by auto
qed

text \<open>
  C3. If \<open>createBucket\<close> fails, the workflow fails in the submitting phase: neither
  \<open>verifyBucketCreation\<close> nor \<open>waitForBackendBucketReady\<close> is called, the observer
  receives creating and then error, and the final progress state is error.
\<close>

theorem rejected_submission_stops:
  assumes "Rejected (CreateBucket n) err \<in> set (snd (submitCreate env m s))"
  shows "(\<forall>b. Call (VerifyBucketCreation b) \<notin> set (snd (submitCreate env m s)))
       \<and> (\<forall>b. Call (WaitForBackendBucketReady b) \<notin> set (snd (submitCreate env m s)))
       \<and> map step (observed (snd (submitCreate env m s))) = [Creating, Error]
       \<and> step (createProgress (fst (submitCreate env m s))) = Error"
  using assms by (auto simp: handler_defs split: sum.splits if_splits)

theorem rejected_submission_stops_witness:
  "Rejected (CreateBucket (str ''docs'')) (ErrorObject (str ''insufficient balance''))
      \<in> set (snd (submitCreate insufficient True docs))
   \<and> (\<forall>b. Call (VerifyBucketCreation b) \<notin> set (snd (submitCreate insufficient True docs)))
   \<and> (\<forall>b. Call (WaitForBackendBucketReady b) \<notin> set (snd (submitCreate insufficient True docs)))
   \<and> map step (observed (snd (submitCreate insufficient True docs))) = [Creating, Error]
   \<and> step (createProgress (fst (submitCreate insufficient True docs))) = Error"
proof -
  have r: "Rejected (CreateBucket (str ''docs'')) (ErrorObject (str ''insufficient balance''))
      \<in> set (snd (submitCreate insufficient True docs))"
    by (simp add: handler_defs scenario_defs insufficient_def trim_docs str_docs_nonempty)
  show ?thesis using r rejected_submission_stops [OF r] by simp
qed

text \<open>
  The page's only gate against a second creation is in its markup: from the first
  \<open>await\<close> of a submit on, the button is disabled. The handler itself tests nothing.
\<close>

lemma button_disabled_while_creating:
  "trim n \<noteq> [] \<Longrightarrow> createDisabled (fst (snd (start ask (handleCreateBucket m n) w)))"
  by (simp add: handler_defs createDisabled_def)

text \<open>
  C4 does not hold as the spec states it. Of two overlapping invocations on one identity
  the second neither fails nor holds back. With the first submit suspended at
  \<open>createBucket\<close>, a second submit of the same name issues its own \<open>createBucket\<close> call and is suspended in turn, the
  progress being creating, not error; two clicks on Delete for one bucket likewise issue
  \<open>deleteBucket\<close> twice.
\<close>

theorem overlapping_handlers_both_submit:
  "awaiting (fst (submitTwice True docs)) = Some (CreateBucket (str ''docs''))
   \<and> awaiting (fst (snd (submitTwice True docs))) = Some (CreateBucket (str ''docs''))
   \<and> filter (\<lambda>e. e = Call (CreateBucket (str ''docs''))) (snd (snd (snd (submitTwice True docs))))
        = [Call (CreateBucket (str ''docs'')), Call (CreateBucket (str ''docs''))]
   \<and> step (createProgress (fst (snd (snd (submitTwice True docs))))) = Creating
   \<and> awaiting (fst (deleteTwice True (str ''B1'') docs)) = Some (DeleteBucket (str ''B1''))
   \<and> awaiting (fst (snd (deleteTwice True (str ''B1'') docs))) = Some (DeleteBucket (str ''B1''))
   \<and> filter (\<lambda>e. e = Call (DeleteBucket (str ''B1''))) (snd (snd (snd (deleteTwice True (str ''B1'') docs))))
        = [Call (DeleteBucket (str ''B1'')), Call (DeleteBucket (str ''B1''))]"
  by (simp add: submitTwice_def deleteTwice_def handler_defs docs_def initialBuckets_def
      trim_docs str_docs_nonempty Let_def)

text \<open>
  C4, as the code has it. The handlers take no lease and know no \<open>ConflictingOperation\<close>: from
  any page state and any events that handlers in flight have left, an invocation never
  waits; \<open>handleCreateBucket\<close> with a non-blank name runs on to its own \<open>createBucket\<close>
  call, and \<open>handleDeleteBucket\<close>, once confirmed, to its own \<open>deleteBucket\<close> call.
\<close>

theorem handlers_take_no_lease:
  "(trim n \<noteq> [] \<longrightarrow>
      awaiting (fst (start ask (handleCreateBucket m n) w)) = Some (CreateBucket n)
      \<and> snd (snd (start ask (handleCreateBucket m n) w)) =
          snd w @ [Act PreventDefault, Act (SetError None),
                Act (SetCreateProgress \<lparr>step = Creating, message = str ''Creating bucket on-chain...''\<rparr>),
                Call (CreateBucket n)])
   \<and> (ask (str ''Are you sure you want to delete this bucket?'') \<longrightarrow>
      awaiting (fst (start ask (handleDeleteBucket m sel b) w)) = Some (DeleteBucket b)
      \<and> snd (snd (start ask (handleDeleteBucket m sel b) w)) =
          snd w @ [Asked (str ''Are you sure you want to delete this bucket?'') True,
                Act (SetIsDeleting (Some b)), Act (SetError None), Call (DeleteBucket b)])"
  by (simp add: handler_defs)

theorem handlers_take_no_lease_witness:
  "trim (bucketName (fst creating)) \<noteq> []
   \<and> Call (CreateBucket (str ''docs'')) \<in> set (snd creating)
   \<and> awaiting (fst (start (\<lambda>q. True) (handleCreateBucket True (bucketName (fst creating))) creating))
        = Some (CreateBucket (bucketName (fst creating)))
   \<and> Call (DeleteBucket (str ''B1'')) \<in> set (snd deleting)
   \<and> awaiting (fst (start (\<lambda>q. True)
          (handleDeleteBucket True (selectedBucketId (fst deleting)) (str ''B1'')) deleting))
        = Some (DeleteBucket (str ''B1''))"
proof -
  have nb: "trim (bucketName (fst creating)) \<noteq> []"
    by (simp add: creating_def handler_defs docs_def initialBuckets_def trim_docs str_docs_nonempty)
  have c: "Call (CreateBucket (str ''docs'')) \<in> set (snd creating)"
    by (simp add: creating_def handler_defs docs_def initialBuckets_def trim_docs str_docs_nonempty)
  have d: "Call (DeleteBucket (str ''B1'')) \<in> set (snd deleting)"
    by (simp add: deleting_def handler_defs docs_def initialBuckets_def)
  show ?thesis
    using nb c d
      handlers_take_no_lease [where n = "bucketName (fst creating)" and ask = "\<lambda>q. True"
         and m = True and w = creating and b = "str ''B1''" and sel = "selectedBucketId (fst deleting)"]
      handlers_take_no_lease [where n = "bucketName (fst creating)" and ask = "\<lambda>q. True"
         and m = True and w = deleting and b = "str ''B1''" and sel = "selectedBucketId (fst deleting)"]
    by simp
qed

lemma failed_cases:
  assumes "Rejected c err \<in> set (snd (submitCreate env m s))" and "c \<noteq> GetBucketsFromMSP"
  shows "trim (bucketName s) \<noteq> [] \<and>
     (createBucket env (bucketName s) = Inl err
      \<or> (\<exists>b. createBucket env (bucketName s) = Inr b \<and>
            (verifyBucketCreation env b = Inl err
             \<or> (\<exists>info. verifyBucketCreation env b = Inr info
                   \<and> waitForBackendBucketReady env b = Inl err))))"
proof (cases "trim (bucketName s) = []")
  case True
  with assms show ?thesis by (simp add: handler_defs)
next
  case nb: False
  show ?thesis
  proof (cases "createBucket env (bucketName s)")
    case (Inl e)
    with assms nb show ?thesis by (simp add: handler_defs)
  next
    case c: (Inr b)
    show ?thesis
    proof (cases "verifyBucketCreation env b")
      case (Inl e)
      with assms nb c show ?thesis by (simp add: handler_defs)
    next
      case v: (Inr info)
      show ?thesis
      proof (cases "waitForBackendBucketReady env b")
        case (Inl e)
        with assms nb c v show ?thesis by (simp add: handler_defs)
      next
        case (Inr u)
        with assms nb c v show ?thesis
          by (cases m; cases "getBucketsFromMSP env") (auto simp: handler_defs)
      qed
    qed
  qed
qed

text \<open>
  C5 does not hold as the spec states it. A failure carries no kind and may be generic: when \<open>createBucket\<close>
  throws a value that is not an \<open>Error\<close>, the final progress is error with the generic
  message, and a failed backend wait leaves exactly the same page, so nothing in it tells
  a rejected submission from a backend timeout.
\<close>

theorem failure_carries_no_kind:
  "createProgress (fst (submitCreate rejecting True docs))
      = \<lparr>step = Error, message = str ''Failed to create bucket''\<rparr>
   \<and> error (fst (submitCreate rejecting True docs)) = Some (str ''Failed to create bucket'')
   \<and> fst (submitCreate lagging True docs) = fst (submitCreate rejecting True docs)"
  by (simp add: handler_defs docs_def initialBuckets_def happy_def rejecting_def lagging_def
      trim_docs str_docs_nonempty)

text \<open>
  C5, as the code has it. Whenever \<open>createBucket\<close>, \<open>verifyBucketCreation\<close> or
  \<open>waitForBackendBucketReady\<close> throws, the failure is surfaced before the handler
  returns: the last progress the observer receives is error, with the message of the
  thrown \<open>Error\<close>, or \<open>Failed to create bucket\<close> for any other thrown value, and the
  same message is stored in \<open>error\<close>.
\<close>

theorem create_failure_surfaced:
  assumes "Rejected c err \<in> set (snd (submitCreate env m s))" and "c \<noteq> GetBucketsFromMSP"
  shows "last (observed (snd (submitCreate env m s)))
           = \<lparr>step = Error, message = messageOr err (str ''Failed to create bucket'')\<rparr>
       \<and> createProgress (fst (submitCreate env m s))
           = \<lparr>step = Error, message = messageOr err (str ''Failed to create bucket'')\<rparr>
       \<and> error (fst (submitCreate env m s)) = Some (messageOr err (str ''Failed to create bucket''))"
proof -
  from failed_cases [OF assms] consider
      (submit) "trim (bucketName s) \<noteq> []" "createBucket env (bucketName s) = Inl err"
    | (verify) b where "trim (bucketName s) \<noteq> []" "createBucket env (bucketName s) = Inr b"
        "verifyBucketCreation env b = Inl err"
    | (wait) b info where "trim (bucketName s) \<noteq> []" "createBucket env (bucketName s) = Inr b"
        "verifyBucketCreation env b = Inr info" "waitForBackendBucketReady env b = Inl err"
    by blast
  then show ?thesis
    by cases (simp_all add: handler_defs)
qed

theorem create_failure_surfaced_witness:
  "Rejected (WaitForBackendBucketReady (str ''B1'')) NonError \<in> set (snd (submitCreate lagging True docs))
   \<and> WaitForBackendBucketReady (str ''B1'') \<noteq> GetBucketsFromMSP
   \<and> last (observed (snd (submitCreate lagging True docs)))
        = \<lparr>step = Error, message = str ''Failed to create bucket''\<rparr>
   \<and> error (fst (submitCreate lagging True docs)) = Some (str ''Failed to create bucket'')"
proof -
  have r: "Rejected (WaitForBackendBucketReady (str ''B1'')) NonError
             \<in> set (snd (submitCreate lagging True docs))"
    by (simp add: handler_defs scenario_defs lagging_def trim_docs str_docs_nonempty)
  have c: "WaitForBackendBucketReady (str ''B1'') \<noteq> GetBucketsFromMSP"
    by simp
  show ?thesis using r c create_failure_surfaced [OF r c] by simp
qed

text \<open>
  C6. With a name that is empty or all whitespace, \<open>handleCreateBucket\<close> only calls
  \<open>preventDefault\<close>: no \<open>createBucket\<close> call, and the progress, like the rest of the
  page state, keeps its prior value.
\<close>

theorem blank_name_no_submission:
  assumes "list_all isWhiteSpace (bucketName s)"
  shows "snd (submitCreate env m s) = [Act PreventDefault]
       \<and> createProgress (fst (submitCreate env m s)) = createProgress s
       \<and> fst (submitCreate env m s) = s"
  using assms by (simp add: handler_defs trim_Nil_iff list_all_iff)

theorem blank_name_no_submission_witness:
  "list_all isWhiteSpace (bucketName (docs\<lparr>bucketName := str ''  ''\<rparr>))
   \<and> snd (submitCreate happy True (docs\<lparr>bucketName := str ''  ''\<rparr>)) = [Act PreventDefault]
   \<and> fst (submitCreate happy True (docs\<lparr>bucketName := str ''  ''\<rparr>)) = docs\<lparr>bucketName := str ''  ''\<rparr>"
proof -
  have blank: "list_all isWhiteSpace (bucketName (docs\<lparr>bucketName := str ''  ''\<rparr>))"
    by (simp add: str_def isWhiteSpace_def)
  show ?thesis using blank blank_name_no_submission [OF blank, of happy True] by simp
qed

lemma done_cases:
  assumes "Done \<in> set (map step (observed (snd (submitCreate env m s))))"
  shows "trim (bucketName s) \<noteq> []
     \<and> (\<exists>b info. createBucket env (bucketName s) = Inr b
           \<and> verifyBucketCreation env b = Inr info
           \<and> waitForBackendBucketReady env b = Inr ())"
proof (cases "trim (bucketName s) = []")
  case True
  with assms show ?thesis by (simp add: handler_defs)
next
  case nb: False
  show ?thesis
  proof (cases "createBucket env (bucketName s)")
    case (Inl e)
    with assms nb show ?thesis by (simp add: handler_defs)
  next
    case c: (Inr b)
    show ?thesis
    proof (cases "verifyBucketCreation env b")
      case (Inl e)
      with assms nb c show ?thesis by (simp add: handler_defs)
    next
      case v: (Inr info)
      show ?thesis
      proof (cases "waitForBackendBucketReady env b")
        case (Inl e)
        with assms nb c v show ?thesis by (simp add: handler_defs)
      next
        case (Inr u)
        with nb c v show ?thesis by simp
      qed
    qed
  qed
qed

lemma create_requeries:
  assumes "Done \<in> set (map step (observed (snd (submitCreate env True s))))"
  shows "Call GetBucketsFromMSP \<in> set (snd (submitCreate env True s))
      \<and> guarded (Act (SetCreateProgress \<lparr>step = Done, message = str ''Bucket created successfully!''\<rparr>))
          (Call GetBucketsFromMSP) (snd (submitCreate env True s))
      \<and> buckets (fst (submitCreate env True s)) =
          (case getBucketsFromMSP env of Inr data \<Rightarrow> data | Inl err \<Rightarrow> buckets s)"
proof -
  from done_cases [OF assms] obtain b info where
    "trim (bucketName s) \<noteq> []" "createBucket env (bucketName s) = Inr b"
    "verifyBucketCreation env b = Inr info" "waitForBackendBucketReady env b = Inr ()"
    by blast
  then show ?thesis
    by (cases "getBucketsFromMSP env") (simp_all add: handler_defs)
qed

lemma delete_requeries:
  assumes "Resolved (DeleteBucket b) \<in> set (snd (clickDelete env True b s))"
  shows "Call GetBucketsFromMSP \<in> set (snd (clickDelete env True b s))
      \<and> guarded (Resolved (DeleteBucket b)) (Call GetBucketsFromMSP) (snd (clickDelete env True b s))
      \<and> buckets (fst (clickDelete env True b s)) =
          (case getBucketsFromMSP env of Inr data \<Rightarrow> data | Inl err \<Rightarrow> buckets s)"
proof (cases "confirm env (str ''Are you sure you want to delete this bucket?'')")
  case False
  with assms show ?thesis by (simp add: handler_defs)
next
  case ok: True
  show ?thesis
  proof (cases "deleteBucket env b")
    case (Inl e)
    with assms ok show ?thesis by (simp add: handler_defs)
  next
    case (Inr u)
    with ok show ?thesis
      by (cases "getBucketsFromMSP env") (simp_all add: handler_defs)
  qed
qed

lemma create_sets_buckets_from_query:
  "Act (SetBuckets data) \<in> set (snd (submitCreate env m s)) \<Longrightarrow> getBucketsFromMSP env = Inr data"
  by (auto simp: handler_defs split: sum.splits if_splits)

lemma delete_sets_buckets_from_query:
  "Act (SetBuckets data) \<in> set (snd (clickDelete env m b s)) \<Longrightarrow> getBucketsFromMSP env = Inr data"
  by (auto simp: handler_defs split: sum.splits if_splits)

lemma create_offline:
  "Call GetBucketsFromMSP \<notin> set (snd (submitCreate env False s))
   \<and> buckets (fst (submitCreate env False s)) = buckets s"
  by (simp add: handler_defs split: sum.split)

lemma delete_offline:
  "Call GetBucketsFromMSP \<notin> set (snd (clickDelete env False b s))
   \<and> buckets (fst (clickDelete env False b s)) = buckets s"
  by (simp add: handler_defs split: sum.split)

text \<open>
  C7 does not hold as the spec states it. With \<open>isMspConnected\<close> false, a successful
  provisioning and a successful teardown both return without querying the backend, and
  the listing keeps its prior value.
\<close>

theorem no_requery_without_msp:
  "Done \<in> set (map step (observed (snd (submitCreate happy False docs))))
   \<and> Call GetBucketsFromMSP \<notin> set (snd (submitCreate happy False docs))
   \<and> buckets (fst (submitCreate happy False docs)) = buckets docs
   \<and> Resolved (DeleteBucket (str ''B1'')) \<in> set (snd (clickDelete happy False (str ''B1'') docs))
   \<and> Call GetBucketsFromMSP \<notin> set (snd (clickDelete happy False (str ''B1'') docs))"
  by (simp add: handler_defs docs_def initialBuckets_def happy_def trim_docs str_docs_nonempty)

text \<open>
  C7, as the code has it. When \<open>isMspConnected\<close> is true, every run that reaches
  done and every run whose \<open>deleteBucket\<close> resolves calls \<open>getBucketsFromMSP\<close>
  afterwards, before the handler returns, and the listing becomes the query's result (it
  keeps its prior value if the query fails). In every run the handlers set the listing
  to nothing but the result of that query; when \<open>isMspConnected\<close> is false they do
  not query and leave the listing as it is.
\<close>

theorem listing_requeried_when_connected:
  "(m \<and> Done \<in> set (map step (observed (snd (submitCreate env m s)))) \<longrightarrow>
      Call GetBucketsFromMSP \<in> set (snd (submitCreate env m s))
      \<and> guarded (Act (SetCreateProgress \<lparr>step = Done, message = str ''Bucket created successfully!''\<rparr>))
          (Call GetBucketsFromMSP) (snd (submitCreate env m s))
      \<and> buckets (fst (submitCreate env m s)) =
          (case getBucketsFromMSP env of Inr data \<Rightarrow> data | Inl err \<Rightarrow> buckets s))
   \<and> (m \<and> Resolved (DeleteBucket b) \<in> set (snd (clickDelete env m b s)) \<longrightarrow>
      Call GetBucketsFromMSP \<in> set (snd (clickDelete env m b s))
      \<and> guarded (Resolved (DeleteBucket b)) (Call GetBucketsFromMSP) (snd (clickDelete env m b s))
      \<and> buckets (fst (clickDelete env m b s)) =
          (case getBucketsFromMSP env of Inr data \<Rightarrow> data | Inl err \<Rightarrow> buckets s))
   \<and> (\<forall>data. Act (SetBuckets data) \<in> set (snd (submitCreate env m s)) \<longrightarrow>
          getBucketsFromMSP env = Inr data)
   \<and> (\<forall>data. Act (SetBuckets data) \<in> set (snd (clickDelete env m b s)) \<longrightarrow>
          getBucketsFromMSP env = Inr data)
   \<and> (\<not> m \<longrightarrow>
        Call GetBucketsFromMSP \<notin> set (snd (submitCreate env m s))
        \<and> buckets (fst (submitCreate env m s)) = buckets s
        \<and> Call GetBucketsFromMSP \<notin> set (snd (clickDelete env m b s))
        \<and> buckets (fst (clickDelete env m b s)) = buckets s)"
  using create_requeries [of env s] delete_requeries [of b env s]
    create_sets_buckets_from_query [of _ env m s] delete_sets_buckets_from_query [of _ env m b s]
    create_offline [of env s] delete_offline [of env b s]
  by (cases m) auto

theorem listing_requeried_when_connected_witness:
  "Done \<in> set (map step (observed (snd (submitCreate happy True docs))))
   \<and> Call GetBucketsFromMSP \<in> set (snd (submitCreate happy True docs))
   \<and> buckets (fst (submitCreate happy True docs))
        = [\<lparr>bucket_bucketId = str ''B1'', bucket_name = str ''docs''\<rparr>]
   \<and> Resolved (DeleteBucket (str ''B1'')) \<in> set (snd (clickDelete happy True (str ''B1'') docs))
   \<and> Call GetBucketsFromMSP \<in> set (snd (clickDelete happy True (str ''B1'') docs))
   \<and> buckets (fst (clickDelete happy True (str ''B1'') docs))
        = [\<lparr>bucket_bucketId = str ''B1'', bucket_name = str ''docs''\<rparr>]"
proof -
  have d: "Done \<in> set (map step (observed (snd (submitCreate happy True docs))))"
    by (simp add: handler_defs scenario_defs trim_docs str_docs_nonempty)
  have r: "Resolved (DeleteBucket (str ''B1'')) \<in> set (snd (clickDelete happy True (str ''B1'') docs))"
    by (simp add: handler_defs scenario_defs)
  have g: "getBucketsFromMSP happy = Inr [\<lparr>bucket_bucketId = str ''B1'', bucket_name = str ''docs''\<rparr>]"
    by (simp add: happy_def)
  show ?thesis
    using d r g listing_requeried_when_connected [of True happy docs "str ''B1''"] by simp
qed

section \<open>Properties of the provider\<close>

lemmas operation_defs =
  connectWallet_def connectMsp_def authenticateUser_def restoreSession_def disconnect_def
  rethrow_def Let_def case_prod_beta

lemmas provider_defs = operation_defs initWasmIfNeeded_def

lemma not_falsy: "\<not> falsy x \<longleftrightarrow> (\<exists>y. x = Some y \<and> y \<noteq> [])"
  by (cases x) simp_all

lemma initWasmIfNeeded_state: "state (fst (initWasmIfNeeded env a)) = state a"
  by (simp add: initWasmIfNeeded_def split: sum.split)

lemma invoke_walletHasAddress:
  assumes "walletHasAddress a" and "answered operation"
  shows "walletHasAddress (invoke operation a)"
proof (cases operation)
  case (ConnectWallet env)
  with assms show ?thesis
    by (auto simp: walletHasAddress_def operation_defs initWasmIfNeeded_state
        split: sum.split)
next
  case (RestoreSession env)
  with assms show ?thesis
    by (auto simp: walletHasAddress_def operation_defs initWasmIfNeeded_state not_falsy
        split: sum.split)
qed (use assms in \<open>simp_all add: walletHasAddress_def operation_defs split: sum.split\<close>)

lemmas answers_defs =
  online_def wasmDown_def walletStuck_def addressless_def initialApp_def initialAppState_def

lemma foldl_walletHasAddress:
  "walletHasAddress a \<Longrightarrow> list_all answered ops \<Longrightarrow>
   walletHasAddress (foldl (\<lambda>a operation. invoke operation a) a ops)"
  by (induction ops arbitrary: a) (simp_all add: invoke_walletHasAddress)

lemma disconnect_returns:
  "snd (disconnect env a) = Inr () \<longleftrightarrow> disconnectWallet env = Inr () \<and> disconnectMsp env = Inr ()"
  by (cases "disconnectWallet env"; cases "disconnectMsp env") (simp_all add: disconnect_def)

lemma disconnect_resets:
  "snd (disconnect env a) = Inr () \<Longrightarrow> state (fst (disconnect env a)) = initialAppState"
  by (cases "disconnectWallet env"; cases "disconnectMsp env")
     (simp_all add: disconnect_def initialAppState_def)

lemma disconnect_throws:
  "snd (disconnect env a) \<noteq> Inr () \<Longrightarrow> fst (disconnect env a) = a"
  by (cases "disconnectWallet env"; cases "disconnectMsp env") (simp_all add: disconnect_def)

text \<open>The page's guard \<open>isAuthenticated\<close> does not imply \<open>isMspConnected\<close>.\<close>

lemma authenticated_without_msp:
  "isAuthenticated (state (history [ConnectWallet online, AuthenticateUser online]))
   \<and> \<not> isMspConnected (state (history [ConnectWallet online, AuthenticateUser online]))"
  by (simp add: history_def provider_defs answers_defs)

lemma initOnce_update:
  "initOnce (a\<lparr>state := st\<rparr>) = initOnce a"
  "initOnce (a\<lparr>isLoading := b\<rparr>) = initOnce a"
  "initOnce (a\<lparr>lastError := e\<rparr>) = initOnce a"
  by (simp_all add: initOnce_def)

lemma initWasmIfNeeded_initOnce: "initOnce (fst (initWasmIfNeeded env a)) = initOnce a"
  by (simp add: initWasmIfNeeded_def initOnce_def split: sum.split)

lemma initWasmIfNeeded_skips: "wasmInitialized a \<Longrightarrow> initWasmIfNeeded env a = (a, Inr ())"
  by (simp add: initWasmIfNeeded_def)

lemma invoke_initOnce: "initOnce (invoke operation a) = initOnce a"
  by (cases operation)
     (simp_all add: operation_defs initOnce_update initWasmIfNeeded_initOnce split: sum.split)

lemma foldl_initOnce:
  "initOnce (foldl (\<lambda>a operation. invoke operation a) a ops) = initOnce a"
  by (induction ops arbitrary: a) (simp_all add: invoke_initOnce)

lemma invoke_skips:
  assumes "wasmInitialized a"
  shows "initWasmLog (invoke operation a) = initWasmLog a \<and> wasmInitialized (invoke operation a)"
  using assms
  by (cases operation) (simp_all add: operation_defs initWasmIfNeeded_skips split: sum.split)

lemma invoke_retries:
  assumes "\<not> wasmInitialized a"
  shows "initWasmLog (invoke (ConnectWallet env) a) = initWasmLog a @ [initWasm env]
       \<and> (\<not> falsy (getConnectedAddress env) \<longrightarrow>
            initWasmLog (invoke (RestoreSession env) a) = initWasmLog a @ [initWasm env])"
  using assms
  by (cases "initWasm env") (simp_all add: operation_defs initWasmIfNeeded_def split: sum.split)

text \<open>
  C8 does not hold as the spec states it. \<open>initWasm\<close> can be invoked twice in one process: a \<open>connectWallet\<close>
  whose \<open>initWasm\<close> fails leaves the flag unset, and the next \<open>connectWallet\<close> invokes
  it again.
\<close>

theorem initWasm_invoked_twice:
  "initWasmLog (history [ConnectWallet wasmDown, ConnectWallet online])
     = [Inl (ErrorObject (str ''wasm fetch failed'')), Inr ()]"
  by (simp add: history_def provider_defs answers_defs)

text \<open>
  C8, as the code has it. Over every history of operations invoked one after the other,
  \<open>initWasm\<close> succeeds at most once, the flag \<open>wasmInitialized\<close> is set exactly when
  an invocation of \<open>initWasm\<close> has succeeded, and every operation invoked with the flag
  set skips \<open>initWasm\<close> and leaves the flag set. With the flag unset, \<open>connectWallet\<close>
  invokes \<open>initWasm\<close>, and so does \<open>restoreSession\<close> when an address is persisted.
\<close>

theorem initWasm_succeeds_once:
  "length (filter succeeded (initWasmLog (history ops))) \<le> 1
   \<and> (wasmInitialized (history ops) \<longleftrightarrow> (\<exists>r \<in> set (initWasmLog (history ops)). succeeded r))
   \<and> (wasmInitialized a \<longrightarrow>
        initWasmLog (invoke operation a) = initWasmLog a \<and> wasmInitialized (invoke operation a))
   \<and> (\<not> wasmInitialized a \<longrightarrow>
        initWasmLog (invoke (ConnectWallet env) a) = initWasmLog a @ [initWasm env]
        \<and> (\<not> falsy (getConnectedAddress env) \<longrightarrow>
             initWasmLog (invoke (RestoreSession env) a) = initWasmLog a @ [initWasm env]))"
proof -
  have "initOnce (initialApp :: ('a, 'b) App)"
    by (simp add: initOnce_def initialApp_def)
  then have once: "initOnce (history ops)"
    by (simp add: history_def foldl_initOnce)
  have le: "length (filter succeeded (initWasmLog (history ops))) \<le> 1"
    using once by (simp add: initOnce_def split: if_splits)
  have flag: "wasmInitialized (history ops) \<longleftrightarrow> (\<exists>r \<in> set (initWasmLog (history ops)). succeeded r)"
  proof (cases "wasmInitialized (history ops)")
    case True
    with once have "filter succeeded (initWasmLog (history ops)) \<noteq> []"
      by (auto simp: initOnce_def)
    with True show ?thesis by (simp add: filter_empty_conv)
  next
    case False
    with once have "filter succeeded (initWasmLog (history ops)) = []"
      by (simp add: initOnce_def)
    with False show ?thesis by (simp add: filter_empty_conv)
  qed
  show ?thesis using le flag invoke_skips [of a operation] invoke_retries [of a env] by blast
qed

theorem initWasm_succeeds_once_witness:
  "wasmInitialized (history [ConnectWallet wasmDown, ConnectWallet online])
   \<and> initWasmLog (invoke (RestoreSession online) (history [ConnectWallet wasmDown, ConnectWallet online]))
       = initWasmLog (history [ConnectWallet wasmDown, ConnectWallet online])
   \<and> wasmInitialized (invoke (RestoreSession online) (history [ConnectWallet wasmDown, ConnectWallet online]))
   \<and> length (filter succeeded (initWasmLog (history [ConnectWallet wasmDown, ConnectWallet online]))) \<le> 1"
proof -
  have f: "wasmInitialized (history [ConnectWallet wasmDown, ConnectWallet online])"
    by (simp add: history_def provider_defs answers_defs)
  show ?thesis
    using f initWasm_succeeds_once [where ops = "[ConnectWallet wasmDown, ConnectWallet online]"
        and a = "history [ConnectWallet wasmDown, ConnectWallet online]"
        and operation = "RestoreSession online" and env = online]
    by simp
qed

text \<open>
  Why the invariant asks for answered \<open>connectWallet\<close>s: the provider would store a
  \<open>null\<close> address next to \<open>isWalletConnected = true\<close>.
\<close>

lemma connectWallet_stores_unchecked:
  "isWalletConnected (state (history [ConnectWallet addressless]))
   \<and> address (state (history [ConnectWallet addressless])) = None"
  by (simp add: history_def provider_defs answers_defs)

text \<open>
  C10 does not hold as the spec states it. \<open>disconnect\<close> does not always restore the
  initial state: when \<open>disconnectWallet()\<close> throws, \<open>disconnect\<close> throws with it and the
  wallet stays connected.
\<close>

theorem disconnect_can_leave_connected:
  "snd (disconnect walletStuck (history [ConnectWallet online]))
     = Inl (ErrorObject (str ''wallet busy''))
   \<and> isWalletConnected (state (fst (disconnect walletStuck (history [ConnectWallet online]))))
   \<and> state (history [ConnectWallet online, Disconnect walletStuck]) \<noteq> initialAppState"
  by (simp add: history_def provider_defs answers_defs)

text \<open>
  C10, as the code has it. In every state the provider reaches from the initial one by
  \<open>connectWallet\<close>, \<open>disconnect\<close>, \<open>connectMsp\<close>, \<open>authenticateUser\<close> and
  \<open>restoreSession\<close>, each \<open>connectWallet\<close> having been answered with an address or a
  failure, \<open>isWalletConnected\<close> implies a non-null \<open>address\<close>. \<open>disconnect\<close> returns
  exactly when \<open>disconnectWallet()\<close> and \<open>disconnectMsp()\<close> both return; when it
  returns it has restored the initial \<open>AppState\<close>, and when it throws it has left the
  provider as it was.
\<close>

theorem wallet_connected_has_address:
  "(list_all answered ops \<and> isWalletConnected (state (history ops)) \<longrightarrow>
      address (state (history ops)) \<noteq> None)
   \<and> (snd (disconnect env a) = Inr () \<longleftrightarrow>
        disconnectWallet env = Inr () \<and> disconnectMsp env = Inr ())
   \<and> (snd (disconnect env a) = Inr () \<longrightarrow> state (fst (disconnect env a)) = initialAppState)
   \<and> (snd (disconnect env a) \<noteq> Inr () \<longrightarrow> fst (disconnect env a) = a)"
proof -
  have start: "walletHasAddress (initialApp :: ('a, 'b) App)"
    by (simp add: walletHasAddress_def initialApp_def initialAppState_def)
  have "list_all answered ops \<Longrightarrow> walletHasAddress (history ops)"
    unfolding history_def using start by (rule foldl_walletHasAddress)
  then have wallet: "list_all answered ops \<and> isWalletConnected (state (history ops)) \<longrightarrow>
      address (state (history ops)) \<noteq> None"
    by (simp add: walletHasAddress_def)
  show ?thesis
    using wallet disconnect_returns [of env a] disconnect_resets [of env a]
      disconnect_throws [of env a]
    by blast
qed

theorem wallet_connected_has_address_witness:
  "list_all answered [RestoreSession online, Disconnect online, ConnectWallet online]
   \<and> isWalletConnected (state (history [RestoreSession online, Disconnect online, ConnectWallet online]))
   \<and> address (state (history [RestoreSession online, Disconnect online, ConnectWallet online])) \<noteq> None
   \<and> snd (disconnect online (history [ConnectWallet online])) = Inr ()
   \<and> state (fst (disconnect online (history [ConnectWallet online]))) = initialAppState"
proof -
  have ok: "list_all answered [RestoreSession online, Disconnect online, ConnectWallet online]"
    by (simp add: online_def)
  have c: "isWalletConnected
      (state (history [RestoreSession online, Disconnect online, ConnectWallet online]))"
    by (simp add: history_def provider_defs answers_defs str_def)
  have d: "snd (disconnect online (history [ConnectWallet online])) = Inr ()"
    by (simp add: disconnect_def online_def)
  show ?thesis
    using ok c d
      wallet_connected_has_address
        [where ops = "[RestoreSession online, Disconnect online, ConnectWallet online]"
           and env = online and a = "history [ConnectWallet online]"]
    by simp
qed

end
